theory Spec2Isabelle
  imports Main "HOL-Library.List_Lexorder" "HOL-Library.Multiset"
begin

section \<open>Points and shapes of \<^verbatim>\<open>polyomino.cpp\<close>\<close>

text \<open>
  The C++ \<^verbatim>\<open>int\<close> coordinates are modelled by mathematical integers. Signed overflow is
  undefined behaviour in C++, so these definitions describe the program on every run whose
  coordinate arithmetic stays inside the range of \<^verbatim>\<open>int\<close>. The enumerator grows its shapes
  cell by cell from the origin and \<^verbatim>\<open>validateConfig\<close> admits sizes up to 20 only. The
  constructor, which accepts any vector of points, is modelled a second time with the 32-bit
  subtraction written out (\<open>normalize_int32\<close> below).
\<close>

subsection \<open>\<^verbatim>\<open>struct Point\<close>\<close>

datatype Point = Point (pt_x: int) (pt_y: int)

text \<open>\<^verbatim>\<open>Point::operator+\<close>\<close>

definition point_add :: "Point \<Rightarrow> Point \<Rightarrow> Point" where
  "point_add a b = Point (pt_x a + pt_x b) (pt_y a + pt_y b)"

text \<open>
  \<^verbatim>\<open>Point::operator<\<close> is the strict order of the instance below; \<open>\<le>\<close> is its reflexive
  closure (\<^verbatim>\<open>Point::operator==\<close> is equality of both fields, which is equality of the datatype).
\<close>

instantiation Point :: linorder
begin

definition less_Point :: "Point \<Rightarrow> Point \<Rightarrow> bool" where
  "less_Point a b = (pt_x a < pt_x b \<or> (pt_x a = pt_x b \<and> pt_y a < pt_y b))"

definition less_eq_Point :: "Point \<Rightarrow> Point \<Rightarrow> bool" where
  "less_eq_Point a b = (a < b \<or> a = b)"

instance
proof
  fix a b c :: Point
  show "(a < b) = (a \<le> b \<and> \<not> b \<le> a)"
    by (auto simp: less_Point_def less_eq_Point_def)
  show "a \<le> a"
    by (simp add: less_eq_Point_def)
  show "a \<le> b \<Longrightarrow> b \<le> c \<Longrightarrow> a \<le> c"
    by (auto simp: less_Point_def less_eq_Point_def)
  show "a \<le> b \<Longrightarrow> b \<le> a \<Longrightarrow> a = b"
    by (auto simp: less_Point_def less_eq_Point_def)
  show "a \<le> b \<or> b \<le> a"
    by (cases a; cases b) (auto simp: less_Point_def less_eq_Point_def)
qed

end

subsection \<open>\<^verbatim>\<open>class Polyomino\<close>\<close>

text \<open>
  The object state is the private vector \<^verbatim>\<open>cells\<close>. \<open>Poly\<close> is the raw state, \<open>getCells\<close> the
  accessor; the explicit C++ constructor, which normalizes, is \<open>Polyomino\<close> below.
\<close>

datatype Polyomino = Poly (getCells: "Point list")

text \<open>
  \<^verbatim>\<open>Polyomino::operator<\<close> compares the cell vectors, and \<^verbatim>\<open>std::vector\<close> compares
  lexicographically with \<^verbatim>\<open>Point::operator<\<close>: the order of lists of
  the library theory \<^verbatim>\<open>List_Lexorder\<close>.
\<close>

instantiation Polyomino :: linorder
begin

definition less_Polyomino :: "Polyomino \<Rightarrow> Polyomino \<Rightarrow> bool" where
  "less_Polyomino p q = (getCells p < getCells q)"

definition less_eq_Polyomino :: "Polyomino \<Rightarrow> Polyomino \<Rightarrow> bool" where
  "less_eq_Polyomino p q = (getCells p \<le> getCells q)"

instance
proof
  fix p q r :: Polyomino
  show "(p < q) = (p \<le> q \<and> \<not> q \<le> p)"
    by (auto simp: less_Polyomino_def less_eq_Polyomino_def)
  show "p \<le> p"
    by (simp add: less_eq_Polyomino_def)
  show "p \<le> q \<Longrightarrow> q \<le> r \<Longrightarrow> p \<le> r"
    by (auto simp: less_eq_Polyomino_def)
  show "p \<le> q \<Longrightarrow> q \<le> p \<Longrightarrow> p = q"
    by (auto simp: less_eq_Polyomino_def Polyomino.expand)
  show "p \<le> q \<or> q \<le> p"
    by (auto simp: less_eq_Polyomino_def)
qed

end

definition size_poly :: "Polyomino \<Rightarrow> nat" where
  "size_poly p = length (getCells p)"

text \<open>
  \<^verbatim>\<open>Polyomino::normalize\<close>: nothing on an empty vector; otherwise the minimum of each
  coordinate (a loop over the cells, started at the first cell), the translation of every
  cell, and \<^verbatim>\<open>std::sort\<close>. \<^verbatim>\<open>Point::operator<\<close> is a strict total order whose equivalent
  elements are equal, so the sorted vector is the one \<open>sort\<close> returns.
\<close>

definition normalize_poly :: "Polyomino \<Rightarrow> Polyomino" where
  "normalize_poly p =
     (if getCells p = [] then p
      else
        let min_x = fold (\<lambda>cell m. min m (pt_x cell)) (getCells p) (pt_x (hd (getCells p)));
            min_y = fold (\<lambda>cell m. min m (pt_y cell)) (getCells p) (pt_y (hd (getCells p)))
        in Poly (sort (map (\<lambda>cell. Point (pt_x cell - min_x) (pt_y cell - min_y)) (getCells p))))"

definition Polyomino :: "Point list \<Rightarrow> Polyomino" where
  "Polyomino points = normalize_poly (Poly points)"

definition addCell :: "Polyomino \<Rightarrow> Point \<Rightarrow> Polyomino" where
  "addCell poly p = normalize_poly (Poly (getCells poly @ [p]))"

definition rotate_poly :: "Polyomino \<Rightarrow> Polyomino" where
  "rotate_poly poly = Polyomino (map (\<lambda>p. Point (pt_y p) (- pt_x p)) (getCells poly))"

definition reflect :: "Polyomino \<Rightarrow> Polyomino" where
  "reflect poly = Polyomino (map (\<lambda>p. Point (- pt_x p) (pt_y p)) (getCells poly))"

subsection \<open>\<^verbatim>\<open>ShapeNormalizer::getCanonical\<close>\<close>

text \<open>The loop \<^verbatim>\<open>for (i = 0; i < 4; ++i) { variants.push_back(current); current = current.rotate(); }\<close>
  with the iterations still to run as first argument.\<close>

fun push_rotations :: "nat \<Rightarrow> Polyomino \<Rightarrow> Polyomino list \<Rightarrow> Polyomino list" where
  "push_rotations 0 current variants = variants"
| "push_rotations (Suc n) current variants = push_rotations n (rotate_poly current) (variants @ [current])"

text \<open>\<^verbatim>\<open>std::min_element\<close> on a non-empty range: the first element that no other is below.\<close>

fun min_element :: "'a::linorder list \<Rightarrow> 'a" where
  "min_element (v # vs) = fold (\<lambda>u smallest. if u < smallest then u else smallest) vs v"

text \<open>
  \<^verbatim>\<open>getCanonical\<close> first fills the vector \<^verbatim>\<open>variants\<close>, then returns its smallest element.
  The first argument is the field \<^verbatim>\<open>enumeration_type\<close> of the \<^verbatim>\<open>ShapeNormalizer\<close>.
\<close>

definition variants_of :: "string \<Rightarrow> Polyomino \<Rightarrow> Polyomino list" where
  "variants_of enumeration_type shape =
     (let variants = push_rotations 4 shape []
      in if enumeration_type = ''free'' \<or> enumeration_type = ''one-sided''
         then push_rotations 4 (reflect shape) variants
         else variants)"

definition getCanonical :: "string \<Rightarrow> Polyomino \<Rightarrow> Polyomino" where
  "getCanonical enumeration_type shape = min_element (variants_of enumeration_type shape)"

subsection \<open>\<^verbatim>\<open>std::set\<close>\<close>

text \<open>
  A \<^verbatim>\<open>std::set\<close> is modelled by the list of its elements in iteration order, which is
  increasing. \<^verbatim>\<open>insert\<close> leaves the set as it is when it holds an element equivalent to the new
  one (neither below the other).
\<close>

fun set_insert :: "'a::linorder \<Rightarrow> 'a list \<Rightarrow> 'a list" where
  "set_insert v [] = [v]"
| "set_insert v (u # us) =
     (if v < u then v # u # us
      else if u < v then u # set_insert v us
      else u # us)"

subsection \<open>\<^verbatim>\<open>class ShapeGenerator\<close>\<close>

definition directions :: "Point list" where
  "directions = [Point 0 1, Point 0 (- 1), Point 1 0, Point (- 1) 0]"

definition isAdjacent :: "Polyomino \<Rightarrow> Point \<Rightarrow> bool" where
  "isAdjacent poly p =
     list_ex (\<lambda>cell. list_ex (\<lambda>dir. point_add cell dir = p) directions) (getCells poly)"

text \<open>The first loop nest of \<^verbatim>\<open>getExtensions\<close>, which fills the set \<^verbatim>\<open>candidates\<close>.\<close>

definition find_candidates :: "Polyomino \<Rightarrow> Point list" where
  "find_candidates poly =
     fold (\<lambda>cell. fold (\<lambda>dir candidates.
             let candidate = point_add cell dir;
                 already_exists = list_ex (\<lambda>existing. existing = candidate) (getCells poly)
             in if \<not> already_exists then set_insert candidate candidates else candidates)
           directions)
       (getCells poly) []"

definition getExtensions :: "Polyomino \<Rightarrow> Polyomino list" where
  "getExtensions poly = map (\<lambda>candidate. addCell poly candidate) (find_candidates poly)"

text \<open>
  \<^verbatim>\<open>ShapeGenerator::enumerate\<close>. The loop state is the vector \<^verbatim>\<open>shapes_by_size\<close> together with the counter
  \<^verbatim>\<open>total_generated\<close> (a \<^verbatim>\<open>size_t\<close>, modelled by a natural number); the progress tracker only
  prints, and the member \<^verbatim>\<open>unique_shapes\<close> is cleared and never read. The body of the
  innermost loop, for one extension:
\<close>

definition grow_ext :: "string \<Rightarrow> Polyomino \<Rightarrow> Polyomino list \<times> nat \<Rightarrow> Polyomino list \<times> nat" where
  "grow_ext enumeration_type ext st =
     (case st of (next_size_shapes, total_generated) \<Rightarrow>
        (set_insert (getCanonical enumeration_type ext) next_size_shapes, total_generated + 1))"

text \<open>The loop over the extensions of one shape, and the loop over the shapes of one size.\<close>

definition grow_shape :: "string \<Rightarrow> Polyomino \<Rightarrow> Polyomino list \<times> nat \<Rightarrow> Polyomino list \<times> nat" where
  "grow_shape enumeration_type shape st = fold (grow_ext enumeration_type) (getExtensions shape) st"

definition grow_level :: "string \<Rightarrow> Polyomino list \<Rightarrow> nat \<Rightarrow> Polyomino list \<times> nat" where
  "grow_level enumeration_type shapes total_generated =
     fold (grow_shape enumeration_type) shapes ([], total_generated)"

text \<open>
  One iteration of the outer loop, for the value \<open>sz\<close> of \<^verbatim>\<open>size\<close>: the shapes of that size
  are grown and the new set is stored at index \<open>sz + 1\<close>.
\<close>

definition level_step ::
  "string \<Rightarrow> nat \<Rightarrow> Polyomino list list \<times> nat \<Rightarrow> Polyomino list list \<times> nat" where
  "level_step enumeration_type sz st =
     (case st of (shapes_by_size, total_generated) \<Rightarrow>
        (case grow_level enumeration_type (shapes_by_size ! sz) total_generated of
           (next_size_shapes, total_generated') \<Rightarrow>
             (shapes_by_size[sz + 1 := next_size_shapes], total_generated')))"

text \<open>The outer loop \<^verbatim>\<open>for (size = 1; size < config.N; ++size)\<close>, from the iteration \<open>size = sz\<close> on.\<close>

function enumerate_loop ::
  "string \<Rightarrow> nat \<Rightarrow> nat \<Rightarrow> Polyomino list list \<times> nat \<Rightarrow> Polyomino list list \<times> nat" where
  "enumerate_loop enumeration_type N sz st =
     (if sz < N
      then enumerate_loop enumeration_type N (sz + 1) (level_step enumeration_type sz st)
      else st)"
  by pat_completeness auto
termination
  by (relation "measure (\<lambda>(enumeration_type, N, sz, st). N - sz)") auto

text \<open>
  The state before the first iteration: \<open>N + 1\<close> empty sets, the single cell inserted at
  index 1, and the counter at 0. \<^verbatim>\<open>validateConfig\<close> admits \<open>1 \<le> N\<close> only, so index 1 exists.
\<close>

definition enumerate_init :: "nat \<Rightarrow> Polyomino list list \<times> nat" where
  "enumerate_init N = ((replicate (N + 1) [])[1 := set_insert (Polyomino [Point 0 0]) []], 0)"

definition enumerate_shapes :: "string \<Rightarrow> nat \<Rightarrow> Polyomino list" where
  "enumerate_shapes enumeration_type N = fst (enumerate_loop enumeration_type N 1 (enumerate_init N)) ! N"

subsection \<open>The constructor on 32-bit coordinates\<close>

text \<open>
  The fields of \<^verbatim>\<open>struct Point\<close> are 32-bit \<^verbatim>\<open>int\<close>s. The only arithmetic of
  \<^verbatim>\<open>Polyomino::normalize\<close> is the subtraction \<^verbatim>\<open>cell.x -= min_x\<close> (and the same for \<open>y\<close>); the
  minimum loops and the sort only compare. The compiled subtraction keeps the low 32 bits of
  the difference, read as a signed number: \<open>wrap32\<close>.
\<close>

definition wrap32 :: "int \<Rightarrow> int" where
  "wrap32 v = (v + 2147483648) mod 4294967296 - 2147483648"

definition sub32 :: "int \<Rightarrow> int \<Rightarrow> int" where
  "sub32 a b = wrap32 (a - b)"

definition normalize_int32 :: "Polyomino \<Rightarrow> Polyomino" where
  "normalize_int32 p =
     (if getCells p = [] then p
      else
        let min_x = fold (\<lambda>cell m. min m (pt_x cell)) (getCells p) (pt_x (hd (getCells p)));
            min_y = fold (\<lambda>cell m. min m (pt_y cell)) (getCells p) (pt_y (hd (getCells p)))
        in Poly (sort (map (\<lambda>cell. Point (sub32 (pt_x cell) min_x) (sub32 (pt_y cell) min_y))
                        (getCells p))))"

definition Polyomino_int32 :: "Point list \<Rightarrow> Polyomino" where
  "Polyomino_int32 points = normalize_int32 (Poly points)"

text \<open>
  The translation stays inside the range of \<^verbatim>\<open>int\<close> when no two cells are further apart
  than the largest \<^verbatim>\<open>int\<close>, in \<open>x\<close> and in \<open>y\<close>.
\<close>

definition span_fits :: "Point list \<Rightarrow> bool" where
  "span_fits points =
     (\<forall>a \<in> set points. \<forall>b \<in> set points.
        pt_x a - pt_x b \<le> 2147483647 \<and> pt_y a - pt_y b \<le> 2147483647)"

section \<open>Notions of the specification\<close>

text \<open>
  The equivalence modes of the specification with their source-level names, and the group
  of transforms the specification attaches to each mode: the identity alone, the four
  rotations, the four rotations and their horizontal reflections.
\<close>

datatype Mode = Mode_None | RotationOnly | RotationAndReflection

fun type_name :: "Mode \<Rightarrow> string" where
  "type_name Mode_None = ''fixed''"
| "type_name RotationOnly = ''one-sided''"
| "type_name RotationAndReflection = ''free''"

definition four_rotations :: "(Polyomino \<Rightarrow> Polyomino) list" where
  "four_rotations = [id, rotate_poly, rotate_poly \<circ> rotate_poly, rotate_poly \<circ> rotate_poly \<circ> rotate_poly]"

fun equivalence_group :: "Mode \<Rightarrow> (Polyomino \<Rightarrow> Polyomino) list" where
  "equivalence_group Mode_None = [id]"
| "equivalence_group RotationOnly = four_rotations"
| "equivalence_group RotationAndReflection =
     four_rotations @ map (\<lambda>T. reflect \<circ> T) four_rotations"

text \<open>
  Two cells are 4-adjacent when one is the other moved by a direction. A shape is
  edge-connected when any two of its cells are linked by a chain of 4-adjacent cells of
  the shape.
\<close>

definition adjacent_cells :: "Point \<Rightarrow> Point \<Rightarrow> bool" where
  "adjacent_cells a b = list_ex (\<lambda>dir. point_add a dir = b) directions"

definition adjacency :: "Point set \<Rightarrow> (Point \<times> Point) set" where
  "adjacency S = {(a, b). a \<in> S \<and> b \<in> S \<and> adjacent_cells a b}"

definition connected_cells :: "Point set \<Rightarrow> bool" where
  "connected_cells S = (\<forall>a \<in> S. \<forall>b \<in> S. (a, b) \<in> (adjacency S)\<^sup>*)"

definition edge_connected :: "Polyomino \<Rightarrow> bool" where
  "edge_connected p = connected_cells (set (getCells p))"

text \<open>
  The levels of a run for \<open>N\<close> are the sets the loop leaves in \<^verbatim>\<open>shapes_by_size\<close>. The state
  of the run when the iteration \<open>size = k\<close> begins is the state the loop reaches with the bound
  \<open>k\<close> in place of \<open>N\<close>. The growths generated at level \<open>k\<close> are the increments of
  \<^verbatim>\<open>total_generated\<close> during the iteration \<open>size = k\<close>.
\<close>

definition levels :: "string \<Rightarrow> nat \<Rightarrow> Polyomino list list" where
  "levels enumeration_type N = fst (enumerate_loop enumeration_type N 1 (enumerate_init N))"

definition state_before :: "string \<Rightarrow> nat \<Rightarrow> nat \<Rightarrow> Polyomino list list \<times> nat" where
  "state_before enumeration_type N k = enumerate_loop enumeration_type k 1 (enumerate_init N)"

definition growths_at :: "string \<Rightarrow> nat \<Rightarrow> nat \<Rightarrow> nat" where
  "growths_at enumeration_type N k =
     snd (state_before enumeration_type N (k + 1)) - snd (state_before enumeration_type N k)"

text \<open>The translation of a cell, as \<^verbatim>\<open>normalize\<close> applies it.\<close>

definition translate :: "int \<Rightarrow> int \<Rightarrow> Point \<Rightarrow> Point" where
  "translate dx dy cell = Point (pt_x cell - dx) (pt_y cell - dy)"

section \<open>The canonicalizer and the enumerator on concrete inputs\<close>

text \<open>
  C1. Under the mode None (type \<^verbatim>\<open>fixed\<close>) canonicalization should return the shape it is
  given. The code runs its rotation loop for every type: the horizontal domino, a
  normalized shape, is sent to the vertical domino.
\<close>

theorem getCanonical_fixed_rotates_domino:
  "Polyomino [Point 0 0, Point 1 0] = Poly [Point 0 0, Point 1 0] \<and>
   getCanonical ''fixed'' (Poly [Point 0 0, Point 1 0]) = Poly [Point 0 0, Point 0 1]"
  by code_simp

text \<open>
  C2. Under the mode None (type \<^verbatim>\<open>fixed\<close>) the enumeration should return 2 shapes for
  \<open>N = 2\<close> and 6 shapes for \<open>N = 3\<close>. The code returns the vertical domino alone for \<open>N = 2\<close>
  and 2 shapes for \<open>N = 3\<close>.
\<close>

theorem enumerate_fixed_counts:
  "enumerate_shapes ''fixed'' 2 = [Poly [Point 0 0, Point 0 1]] \<and>
   length (enumerate_shapes ''fixed'' 3) = 2"
  by code_simp

text \<open>
  C3. Under the mode RotationOnly (type \<^verbatim>\<open>one-sided\<close>) the enumeration should return 7
  shapes for \<open>N = 4\<close>. The code returns 5.
\<close>

theorem enumerate_one_sided_4:
  "length (enumerate_shapes ''one-sided'' 4) = 5"
  by code_simp

text \<open>
  C4. Canonicalization with the type \<^verbatim>\<open>one-sided\<close> returns the same shape as
  canonicalization with the type \<^verbatim>\<open>free\<close>, for every shape.
\<close>

theorem getCanonical_one_sided_eq_free:
  "getCanonical ''one-sided'' s = getCanonical ''free'' s"
  by (simp add: getCanonical_def variants_of_def)

text \<open>
  C5. Under the mode RotationAndReflection (type \<^verbatim>\<open>free\<close>) the enumeration returns 1
  shape for \<open>N = 1\<close>, 1 shape for \<open>N = 2\<close>, 5 shapes for \<open>N = 4\<close> and 12 shapes for \<open>N = 5\<close>.
\<close>

theorem enumerate_free_counts:
  "length (enumerate_shapes ''free'' 1) = 1 \<and>
   length (enumerate_shapes ''free'' 2) = 1 \<and>
   length (enumerate_shapes ''free'' 4) = 5 \<and>
   length (enumerate_shapes ''free'' 5) = 12"
  by code_simp

section \<open>Normalization\<close>

text \<open>The two minimum loops of \<^verbatim>\<open>normalize\<close> compute the least coordinates of the cells.\<close>

lemma fold_min_Min:
  "fold (\<lambda>cell m. min m (f cell)) cs (a::'b::linorder) = Min (insert a (f ` set cs))"
proof (induction cs arbitrary: a)
  case Nil
  show ?case by simp
next
  case (Cons c cs)
  have "Min (insert (min a (f c)) (f ` set cs)) = Min (insert a (insert (f c) (f ` set cs)))"
  proof (cases "cs = []")
    case True
    then show ?thesis by (simp add: min.commute)
  next
    case False
    then show ?thesis by (simp add: min.assoc)
  qed
  with Cons show ?case by simp
qed

lemma fold_min_hd:
  "cs \<noteq> [] \<Longrightarrow> fold (\<lambda>cell m. min m (f cell)) cs ((f (hd cs))::'b::linorder) = Min (f ` set cs)"
  by (cases cs) (auto simp: fold_min_Min simp del: fold_simps)

lemma normalize_Poly:
  "cs \<noteq> [] \<Longrightarrow>
   normalize_poly (Poly cs) = Poly (sort (map (translate (Min (pt_x ` set cs)) (Min (pt_y ` set cs))) cs))"
proof -
  assume ne: "cs \<noteq> []"
  have t: "translate dx dy = (\<lambda>cell. Point (pt_x cell - dx) (pt_y cell - dy))" for dx dy
    by (rule ext) (simp add: translate_def)
  show ?thesis
    using ne by (simp add: normalize_poly_def Let_def fold_min_hd t)
qed

text \<open>A sorted vector with the given cells is the one \<open>sort\<close> returns.\<close>

lemma std_sort_unique:
  "mset ys = mset xs \<Longrightarrow> sorted ys \<Longrightarrow> ys = sort (xs :: Point list)"
  by (simp add: properties_for_sort)

lemma Min_image_minus:
  "finite A \<Longrightarrow> A \<noteq> {} \<Longrightarrow> Min ((\<lambda>v. v - d) ` A) = Min A - (d::int)"
  by (rule mono_Min_commute [symmetric]) (auto simp: mono_def)

lemma Min_x_translate:
  "cs \<noteq> [] \<Longrightarrow> Min (pt_x ` translate dx dy ` set cs) = Min (pt_x ` set cs) - dx"
proof -
  assume ne: "cs \<noteq> []"
  have "pt_x ` translate dx dy ` set cs = (\<lambda>v. v - dx) ` pt_x ` set cs"
    by (auto simp: translate_def image_iff)
  then show ?thesis using ne by (simp add: Min_image_minus)
qed

lemma Min_y_translate:
  "cs \<noteq> [] \<Longrightarrow> Min (pt_y ` translate dx dy ` set cs) = Min (pt_y ` set cs) - dy"
proof -
  assume ne: "cs \<noteq> []"
  have "pt_y ` translate dx dy ` set cs = (\<lambda>v. v - dy) ` pt_y ` set cs"
    by (auto simp: translate_def image_iff)
  then show ?thesis using ne by (simp add: Min_image_minus)
qed

lemma inj_translate: "inj (translate dx dy)"
  by (rule injI) (auto simp: translate_def Point.expand)

lemma Polyomino_Nil: "Polyomino [] = Poly []"
  by (simp add: Polyomino_def normalize_poly_def)

lemma getCells_Polyomino:
  "cs \<noteq> [] \<Longrightarrow>
   getCells (Polyomino cs) = sort (map (translate (Min (pt_x ` set cs)) (Min (pt_y ` set cs))) cs)"
  by (simp add: Polyomino_def normalize_Poly)

text \<open>
  Without overflow the constructor sorts the cells in the lexicographic order of
  \<^verbatim>\<open>Point::operator<\<close> and, when there is a cell, translates them so that the least \<open>x\<close> and
  the least \<open>y\<close> are both zero. The cells of the result are the translated cells of the
  argument with their multiplicities.
\<close>

lemma Polyomino_normalized:
  "sorted (getCells (Polyomino points)) \<and>
   (points \<noteq> [] \<longrightarrow>
      Min (pt_x ` set (getCells (Polyomino points))) = 0 \<and>
      Min (pt_y ` set (getCells (Polyomino points))) = 0) \<and>
   mset (getCells (Polyomino points)) =
     image_mset (translate (Min (pt_x ` set points)) (Min (pt_y ` set points))) (mset points) \<and>
   (distinct (getCells (Polyomino points)) \<longleftrightarrow> distinct points)"
proof (cases "points = []")
  case True
  then show ?thesis by (simp add: Polyomino_Nil)
next
  case False
  note c = getCells_Polyomino [OF False]
  have "sorted (getCells (Polyomino points))"
    by (simp add: c)
  moreover have "Min (pt_x ` set (getCells (Polyomino points))) = 0"
    using False by (simp add: c Min_x_translate)
  moreover have "Min (pt_y ` set (getCells (Polyomino points))) = 0"
    using False by (simp add: c Min_y_translate)
  moreover have "mset (getCells (Polyomino points)) =
     image_mset (translate (Min (pt_x ` set points)) (Min (pt_y ` set points))) (mset points)"
    by (simp add: c)
  moreover have "distinct (getCells (Polyomino points)) \<longleftrightarrow> distinct points"
    by (simp add: c distinct_map inj_on_subset [OF inj_translate])
  ultimately show ?thesis by simp
qed

text \<open>
  When the cells span no more than the largest \<^verbatim>\<open>int\<close>, no subtraction of the constructor
  wraps, and the 32-bit constructor returns what the unbounded one returns.
\<close>

lemma wrap32_id: "0 \<le> v \<Longrightarrow> v \<le> 2147483647 \<Longrightarrow> wrap32 v = v"
  by (simp add: wrap32_def)

lemma span_fits_x:
  assumes "span_fits points" and "c \<in> set points"
  shows "sub32 (pt_x c) (Min (pt_x ` set points)) = pt_x c - Min (pt_x ` set points)"
proof -
  have ne: "pt_x ` set points \<noteq> {}" using assms(2) by auto
  have "Min (pt_x ` set points) \<in> pt_x ` set points"
    using ne by (intro Min_in) simp
  then obtain b where b: "b \<in> set points" "Min (pt_x ` set points) = pt_x b" by auto
  have "pt_x c - pt_x b \<le> 2147483647"
    using assms b(1) by (simp add: span_fits_def)
  moreover have "pt_x b \<le> pt_x c"
    using assms(2) b(2) by (metis List.finite_set Min_le finite_imageI imageI)
  ultimately show ?thesis
    by (simp add: sub32_def wrap32_id b(2))
qed

lemma span_fits_y:
  assumes "span_fits points" and "c \<in> set points"
  shows "sub32 (pt_y c) (Min (pt_y ` set points)) = pt_y c - Min (pt_y ` set points)"
proof -
  have ne: "pt_y ` set points \<noteq> {}" using assms(2) by auto
  have "Min (pt_y ` set points) \<in> pt_y ` set points"
    using ne by (intro Min_in) simp
  then obtain b where b: "b \<in> set points" "Min (pt_y ` set points) = pt_y b" by auto
  have "pt_y c - pt_y b \<le> 2147483647"
    using assms b(1) by (simp add: span_fits_def)
  moreover have "pt_y b \<le> pt_y c"
    using assms(2) b(2) by (metis List.finite_set Min_le finite_imageI imageI)
  ultimately show ?thesis
    by (simp add: sub32_def wrap32_id b(2))
qed

lemma Polyomino_int32_eq:
  assumes "span_fits points"
  shows "Polyomino_int32 points = Polyomino points"
proof (cases "points = []")
  case True
  then show ?thesis
    by (simp add: Polyomino_int32_def normalize_int32_def Polyomino_def normalize_poly_def)
next
  case False
  have m: "map (\<lambda>cell. Point (sub32 (pt_x cell) (Min (pt_x ` set points)))
                          (sub32 (pt_y cell) (Min (pt_y ` set points)))) points =
        map (translate (Min (pt_x ` set points)) (Min (pt_y ` set points))) points"
    by (rule map_cong) (simp_all add: translate_def span_fits_x [OF assms] span_fits_y [OF assms])
  have n: "normalize_int32 (Poly points) =
      Poly (sort (map (\<lambda>cell. Point (sub32 (pt_x cell) (Min (pt_x ` set points)))
                          (sub32 (pt_y cell) (Min (pt_y ` set points)))) points))"
    using False by (simp add: normalize_int32_def Let_def fold_min_hd)
  show ?thesis
    by (simp only: Polyomino_int32_def Polyomino_def n m normalize_Poly [OF False])
qed

text \<open>
  C10, as the code has it. For a list of cells, duplicates allowed, whose \<open>x\<close> coordinates and
  whose \<open>y\<close> coordinates span no more than the largest \<^verbatim>\<open>int\<close>, the constructor sorts the
  cells in the lexicographic order of \<^verbatim>\<open>Point::operator<\<close> and, when there is a cell,
  translates them so that the least \<open>x\<close> and the least \<open>y\<close> are both zero. The cells of the
  result are the translated cells of the argument with their multiplicities: nothing removes
  a duplicate, and the result is free of duplicates exactly when the argument is.
\<close>

theorem Polyomino_int32_normalized:
  assumes "span_fits points"
  shows "sorted (getCells (Polyomino_int32 points)) \<and>
   (points \<noteq> [] \<longrightarrow>
      Min (pt_x ` set (getCells (Polyomino_int32 points))) = 0 \<and>
      Min (pt_y ` set (getCells (Polyomino_int32 points))) = 0) \<and>
   mset (getCells (Polyomino_int32 points)) =
     image_mset (translate (Min (pt_x ` set points)) (Min (pt_y ` set points))) (mset points) \<and>
   (distinct (getCells (Polyomino_int32 points)) \<longleftrightarrow> distinct points)"
  unfolding Polyomino_int32_eq [OF assms] by (rule Polyomino_normalized)

theorem Polyomino_int32_normalized_witness:
  "span_fits [Point 5 7, Point 4 9, Point 5 7] \<and>
   Polyomino_int32 [Point 5 7, Point 4 9, Point 5 7] = Poly [Point 0 2, Point 1 0, Point 1 0] \<and>
   sorted (getCells (Polyomino_int32 [Point 5 7, Point 4 9, Point 5 7])) \<and>
   Min (pt_x ` set (getCells (Polyomino_int32 [Point 5 7, Point 4 9, Point 5 7]))) = 0 \<and>
   Min (pt_y ` set (getCells (Polyomino_int32 [Point 5 7, Point 4 9, Point 5 7]))) = 0 \<and>
   mset (getCells (Polyomino_int32 [Point 5 7, Point 4 9, Point 5 7])) =
     {#Point 1 0, Point 0 2, Point 1 0#} \<and>
   \<not> distinct (getCells (Polyomino_int32 [Point 5 7, Point 4 9, Point 5 7]))"
proof -
  have f: "span_fits [Point 5 7, Point 4 9, Point 5 7]"
    by (simp add: span_fits_def)
  have v: "Polyomino_int32 [Point 5 7, Point 4 9, Point 5 7] = Poly [Point 0 2, Point 1 0, Point 1 0]"
    by code_simp
  show ?thesis
    using Polyomino_int32_normalized [OF f] f v by (simp add: translate_def)
qed

text \<open>
  C10, as stated, promises for every list of cells a shape without duplicate cells whose
  least \<open>x\<close> is zero. A list that holds the same cell twice gives a shape that holds it twice,
  and on a list whose \<open>x\<close> coordinates span more than the largest \<^verbatim>\<open>int\<close> the subtraction
  wraps and leaves a negative \<open>x\<close>.
\<close>

theorem Polyomino_int32_duplicates_overflow:
  "\<not> distinct (getCells (Polyomino_int32 [Point 0 0, Point 0 0])) \<and>
   Polyomino_int32 [Point 2147483647 0, Point (- 1) 0] = Poly [Point (- 2147483648) 0, Point 0 0]"
  by code_simp

section \<open>Rotation and reflection of normalized shapes\<close>

text \<open>
  The constructor does not see a translation of its argument, nor the order of the cells.
\<close>

lemma Polyomino_translate: "Polyomino (map (translate dx dy) cs) = Polyomino cs"
proof (cases "cs = []")
  case True
  then show ?thesis by simp
next
  case False
  have comp: "translate a b \<circ> translate dx dy = translate (a + dx) (b + dy)" for a b
    by (rule ext) (simp add: translate_def)
  have "getCells (Polyomino (map (translate dx dy) cs)) = getCells (Polyomino cs)"
    using False by (simp add: getCells_Polyomino Min_x_translate Min_y_translate comp)
  then show ?thesis by (simp add: Polyomino.expand)
qed

lemma Polyomino_mset:
  assumes "mset cs = mset ds"
  shows "Polyomino cs = Polyomino ds"
proof (cases "cs = []")
  case True
  with assms show ?thesis by simp
next
  case False
  with assms have ne: "ds \<noteq> []" by auto
  from assms have s: "set cs = set ds" by (rule mset_eq_setD)
  let ?t = "translate (Min (pt_x ` set ds)) (Min (pt_y ` set ds))"
  have "mset (map ?t cs) = mset (map ?t ds)"
    using assms by (metis mset_map)
  then have "sort (map ?t cs) = sort (map ?t ds)"
    by (intro properties_for_sort) simp_all
  then have "getCells (Polyomino cs) = getCells (Polyomino ds)"
    using False ne by (simp add: getCells_Polyomino s)
  then show ?thesis by (simp add: Polyomino.expand)
qed

lemma mset_getCells_Polyomino:
  "mset (getCells (Polyomino cs)) =
     image_mset (translate (Min (pt_x ` set cs)) (Min (pt_y ` set cs))) (mset cs)"
  by (cases "cs = []") (simp_all add: Polyomino_Nil getCells_Polyomino)

text \<open>
  A map of the plane that sends translations to translations can be applied before or after
  normalization. Rotation and reflection are such maps, so on a shape built by the
  constructor both act on the cells the shape was built from.
\<close>

lemma Polyomino_map_getCells:
  assumes "\<And>dx dy c. f (translate dx dy c) = translate (g dx dy) (h dx dy) (f c)"
  shows "Polyomino (map f (getCells (Polyomino cs))) = Polyomino (map f cs)"
proof -
  let ?mx = "Min (pt_x ` set cs)" and ?my = "Min (pt_y ` set cs)"
  have "mset (map f (getCells (Polyomino cs))) = image_mset f (mset (getCells (Polyomino cs)))"
    by simp
  also have "\<dots> = image_mset (\<lambda>c. f (translate ?mx ?my c)) (mset cs)"
    by (simp add: mset_getCells_Polyomino multiset.map_comp comp_def)
  also have "\<dots> = mset (map (translate (g ?mx ?my) (h ?mx ?my)) (map f cs))"
    by (simp add: assms comp_def)
  finally have "Polyomino (map f (getCells (Polyomino cs))) =
      Polyomino (map (translate (g ?mx ?my) (h ?mx ?my)) (map f cs))"
    by (rule Polyomino_mset)
  then show ?thesis by (simp only: Polyomino_translate)
qed

lemma rotate_Polyomino:
  "rotate_poly (Polyomino cs) = Polyomino (map (\<lambda>p. Point (pt_y p) (- pt_x p)) cs)"
  unfolding rotate_poly_def
  by (rule Polyomino_map_getCells [where g = "\<lambda>dx dy. dy" and h = "\<lambda>dx dy. - dx"])
     (simp add: translate_def)

lemma reflect_Polyomino:
  "reflect (Polyomino cs) = Polyomino (map (\<lambda>p. Point (- pt_x p) (pt_y p)) cs)"
  unfolding reflect_def
  by (rule Polyomino_map_getCells [where g = "\<lambda>dx dy. - dx" and h = "\<lambda>dx dy. dy"])
     (simp add: translate_def)

lemma rotate4: "rotate_poly (rotate_poly (rotate_poly (rotate_poly (Polyomino cs)))) = Polyomino cs"
  by (simp add: rotate_Polyomino comp_def)

lemma reflect2: "reflect (reflect (Polyomino cs)) = Polyomino cs"
  by (simp add: reflect_Polyomino comp_def)

lemma reflect_rotate:
  "reflect (rotate_poly (Polyomino cs)) = rotate_poly (rotate_poly (rotate_poly (reflect (Polyomino cs))))"
  by (simp add: rotate_Polyomino reflect_Polyomino comp_def)

lemma rotate_reflect:
  "rotate_poly (reflect (Polyomino cs)) = reflect (rotate_poly (rotate_poly (rotate_poly (Polyomino cs))))"
  by (simp add: rotate_Polyomino reflect_Polyomino comp_def)

section \<open>Canonical forms\<close>

text \<open>\<^verbatim>\<open>std::min_element\<close> returns the least element of the vector \<^verbatim>\<open>variants\<close>.\<close>

lemma fold_less_Min:
  "fold (\<lambda>u smallest. if u < smallest then u else smallest) vs (v::'a::linorder) = Min (insert v (set vs))"
proof -
  have "(\<lambda>u smallest. if u < smallest then u else smallest) = (\<lambda>(u::'a) m. min m (id u))"
    by (intro ext) (auto simp: min_def)
  then show ?thesis
    by (simp only: fold_min_Min) simp
qed

lemma min_element_Min: "vs \<noteq> [] \<Longrightarrow> min_element vs = Min (set vs)"
  by (cases vs) (simp_all add: fold_less_Min del: fold_simps)

lemma push_rotations_4:
  "push_rotations 4 s acc = acc @ [s, rotate_poly s, rotate_poly (rotate_poly s), rotate_poly (rotate_poly (rotate_poly s))]"
  by (simp add: eval_nat_numeral)

lemma variants_of_ne: "variants_of ty s \<noteq> []"
  by (simp add: variants_of_def push_rotations_4 Let_def)

lemma getCanonical_Min: "getCanonical ty s = Min (set (variants_of ty s))"
  by (simp add: getCanonical_def min_element_Min variants_of_ne)

lemma getCanonical_in_variants: "getCanonical ty s \<in> set (variants_of ty s)"
  unfolding getCanonical_Min by (rule Min_in) (simp_all add: variants_of_ne)

text \<open>
  Every variant of a shape built by the constructor has the same set of variants as the
  shape, whatever the type.
\<close>

lemma variants_of_member:
  assumes "v \<in> set (variants_of ty (Polyomino cs))"
  shows "set (variants_of ty v) = set (variants_of ty (Polyomino cs))"
  using assms
  by (auto simp: variants_of_def push_rotations_4 Let_def rotate_Polyomino reflect_Polyomino comp_def)

lemma getCanonical_member:
  "v \<in> set (variants_of ty (Polyomino cs)) \<Longrightarrow> getCanonical ty v = getCanonical ty (Polyomino cs)"
  by (simp add: getCanonical_Min variants_of_member)

text \<open>
  C8. Canonicalization is idempotent: for every shape built by the constructor (every
  \<^verbatim>\<open>Polyomino\<close> object is one, the constructor and \<^verbatim>\<open>addCell\<close> normalize) and every
  enumeration type, the canonical form of the canonical form is the canonical form.
\<close>

theorem getCanonical_idempotent:
  "getCanonical ty (getCanonical ty (Polyomino cs)) = getCanonical ty (Polyomino cs)"
  by (rule getCanonical_member) (rule getCanonical_in_variants)

theorem getCanonical_idempotent_witness:
  "getCanonical ''fixed'' (getCanonical ''fixed'' (Polyomino [Point 2 0, Point 3 0])) =
     Poly [Point 0 0, Point 0 1]"
proof -
  have "getCanonical ''fixed'' (Polyomino [Point 2 0, Point 3 0]) = Poly [Point 0 0, Point 0 1]"
    by code_simp
  then show ?thesis
    using getCanonical_idempotent [of "''fixed''" "[Point 2 0, Point 3 0]"] by simp
qed

text \<open>
  C7. For every shape built by the constructor, every equivalence mode and every transform
  of the group the specification attaches to the mode, the transformed shape has the same
  canonical form as the shape.
\<close>

theorem getCanonical_invariant:
  "\<forall>T \<in> set (equivalence_group mode).
     getCanonical (type_name mode) (T (Polyomino cs)) = getCanonical (type_name mode) (Polyomino cs)"
proof
  fix T
  assume T: "T \<in> set (equivalence_group mode)"
  have "T (Polyomino cs) \<in> set (variants_of (type_name mode) (Polyomino cs))"
  proof (cases mode)
    case Mode_None
    with T show ?thesis
      by (simp add: variants_of_def push_rotations_4 Let_def)
  next
    case RotationOnly
    with T show ?thesis
      by (auto simp: four_rotations_def variants_of_def push_rotations_4 Let_def)
  next
    case RotationAndReflection
    with T show ?thesis
      by (auto simp: four_rotations_def variants_of_def push_rotations_4 Let_def
            rotate_Polyomino reflect_Polyomino comp_def)
  qed
  then show "getCanonical (type_name mode) (T (Polyomino cs)) =
      getCanonical (type_name mode) (Polyomino cs)"
    by (rule getCanonical_member)
qed

theorem getCanonical_invariant_witness:
  "getCanonical ''free'' (reflect (rotate_poly (Polyomino [Point 3 3, Point 4 3, Point 4 4, Point 5 4]))) =
     Poly [Point 0 0, Point 0 1, Point 1 1, Point 1 2]"
proof -
  have "getCanonical ''free'' (Polyomino [Point 3 3, Point 4 3, Point 4 4, Point 5 4]) =
      Poly [Point 0 0, Point 0 1, Point 1 1, Point 1 2]"
    by code_simp
  then show ?thesis
    using getCanonical_invariant [of RotationAndReflection "[Point 3 3, Point 4 3, Point 4 4, Point 5 4]"]
    by (simp add: four_rotations_def)
qed

section \<open>Extensions\<close>

text \<open>Insertion into a \<^verbatim>\<open>std::set\<close> adds the element and at most one entry.\<close>

lemma set_set_insert: "set (set_insert v xs) = insert v (set xs)"
  by (induction xs) auto

lemma length_set_insert: "length (set_insert v xs) \<le> Suc (length xs)"
  by (induction xs) auto

lemma sorted_set_insert: "sorted_wrt (<) xs \<Longrightarrow> sorted_wrt (<) (set_insert v xs)"
  by (induction xs) (auto simp: set_set_insert)

text \<open>
  The candidates of a shape are the cells that are 4-adjacent to one of its cells and not
  occupied.
\<close>

lemma isAdjacent_iff:
  "isAdjacent poly p \<longleftrightarrow> (\<exists>cell \<in> set (getCells poly). adjacent_cells cell p)"
  by (simp add: isAdjacent_def adjacent_cells_def list_ex_iff)

lemma candidates_of_cell:
  "set (fold (\<lambda>dir candidates.
             let candidate = point_add cell dir;
                 already_exists = list_ex (\<lambda>existing. existing = candidate) cells
             in if \<not> already_exists then set_insert candidate candidates else candidates)
          ds acc) =
   set acc \<union> {c. c \<notin> set cells \<and> (\<exists>dir \<in> set ds. point_add cell dir = c)}"
  by (induction ds arbitrary: acc) (auto simp: Let_def set_set_insert list_ex_iff)

lemma candidates_of_cells:
  "set (fold (\<lambda>cell. fold (\<lambda>dir candidates.
             let candidate = point_add cell dir;
                 already_exists = list_ex (\<lambda>existing. existing = candidate) cells
             in if \<not> already_exists then set_insert candidate candidates else candidates)
           directions) cs acc) =
   set acc \<union> {c. c \<notin> set cells \<and> (\<exists>cell \<in> set cs. adjacent_cells cell c)}"
proof (induction cs arbitrary: acc)
  case Nil
  show ?case by simp
next
  case (Cons a cs)
  show ?case
    by (simp only: fold_simps Cons.IH candidates_of_cell)
       (auto simp: adjacent_cells_def list_ex_iff)
qed

lemma set_find_candidates:
  "set (find_candidates poly) = {c. isAdjacent poly c \<and> c \<notin> set (getCells poly)}"
  unfolding find_candidates_def candidates_of_cells
  by (auto simp: isAdjacent_iff)

text \<open>\<^verbatim>\<open>addCell\<close> appends the cell, then translates and sorts.\<close>

lemma getCells_addCell:
  "getCells (addCell poly c) =
     sort (map (translate (Min (pt_x ` insert c (set (getCells poly))))
                          (Min (pt_y ` insert c (set (getCells poly))))) (getCells poly @ [c]))"
  by (simp add: addCell_def normalize_Poly)

lemma size_poly_addCell: "size_poly (addCell poly c) = size_poly poly + 1"
  by (simp add: size_poly_def getCells_addCell)

lemma set_getCells_addCell:
  "set (getCells (addCell poly c)) =
     translate (Min (pt_x ` insert c (set (getCells poly))))
               (Min (pt_y ` insert c (set (getCells poly)))) ` insert c (set (getCells poly))"
  by (simp add: getCells_addCell)

text \<open>
  Connectivity survives a new cell next to an old one, and survives a translation.
\<close>

lemma adjacent_cells_sym: "adjacent_cells a b \<Longrightarrow> adjacent_cells b a"
  by (cases a; cases b) (auto simp: adjacent_cells_def directions_def point_add_def)

lemma adjacent_cells_translate:
  "adjacent_cells a b \<Longrightarrow> adjacent_cells (translate dx dy a) (translate dx dy b)"
  by (cases a; cases b) (auto simp: adjacent_cells_def directions_def point_add_def translate_def)

lemma adjacency_mono: "S \<subseteq> S' \<Longrightarrow> (adjacency S)\<^sup>* \<subseteq> (adjacency S')\<^sup>*"
  by (rule rtrancl_mono) (auto simp: adjacency_def)

lemma connected_cells_insert:
  assumes conn: "connected_cells S" and d: "d \<in> S" and adj: "adjacent_cells d c"
  shows "connected_cells (insert c S)"
  unfolding connected_cells_def
proof (intro ballI)
  fix a b
  assume a: "a \<in> insert c S" and b: "b \<in> insert c S"
  let ?R = "adjacency (insert c S)"
  have old: "(u, v) \<in> ?R\<^sup>*" if "u \<in> S" "v \<in> S" for u v
    using conn that adjacency_mono [of S "insert c S"] by (auto simp: connected_cells_def)
  have dc: "(d, c) \<in> ?R" and cd: "(c, d) \<in> ?R"
    using d adj adjacent_cells_sym [OF adj] by (auto simp: adjacency_def)
  show "(a, b) \<in> ?R\<^sup>*"
  proof (cases "a = c")
    case ac: True
    show ?thesis
    proof (cases "b = c")
      case True
      with ac show ?thesis by simp
    next
      case False
      with b have "b \<in> S" by simp
      then have "(d, b) \<in> ?R\<^sup>*" using d by (intro old)
      with cd ac show ?thesis by (auto intro: converse_rtrancl_into_rtrancl)
    qed
  next
    case False
    with a have aS: "a \<in> S" by simp
    show ?thesis
    proof (cases "b = c")
      case True
      have "(a, d) \<in> ?R\<^sup>*" using aS d by (intro old)
      with dc True show ?thesis by (auto intro: rtrancl_into_rtrancl)
    next
      case False
      with b have "b \<in> S" by simp
      with aS show ?thesis by (intro old)
    qed
  qed
qed

lemma adjacency_translate:
  "(a, b) \<in> (adjacency S)\<^sup>* \<Longrightarrow>
   (translate dx dy a, translate dx dy b) \<in> (adjacency (translate dx dy ` S))\<^sup>*"
proof (induction rule: rtrancl_induct)
  case base
  show ?case by simp
next
  case (step u v)
  from step.hyps(2) have "(translate dx dy u, translate dx dy v) \<in> adjacency (translate dx dy ` S)"
    by (auto simp: adjacency_def adjacent_cells_translate)
  with step.IH show ?case by (rule rtrancl_into_rtrancl)
qed

lemma connected_cells_translate:
  "connected_cells S \<Longrightarrow> connected_cells (translate dx dy ` S)"
  by (auto simp: connected_cells_def adjacency_translate)

lemma edge_connected_addCell:
  assumes "edge_connected poly" and "isAdjacent poly c"
  shows "edge_connected (addCell poly c)"
proof -
  from assms(2) obtain d where "d \<in> set (getCells poly)" "adjacent_cells d c"
    by (auto simp: isAdjacent_iff)
  with assms(1) have "connected_cells (insert c (set (getCells poly)))"
    by (auto simp: edge_connected_def intro: connected_cells_insert)
  then show ?thesis
    unfolding edge_connected_def set_getCells_addCell by (rule connected_cells_translate)
qed

text \<open>
  C6, as the code has it. Every shape in the extensions of an edge-connected shape \<open>p\<close> is
  edge-connected and has one cell more than \<open>p\<close>. It is \<open>p\<close> with one new cell added by
  \<^verbatim>\<open>addCell\<close>, a cell 4-adjacent to a cell of \<open>p\<close> and not occupied in \<open>p\<close>; its cell set is
  the set of the cells of \<open>p\<close> and the new cell after the translation of \<^verbatim>\<open>normalize\<close>, which
  moves the least \<open>x\<close> and the least \<open>y\<close> to zero.
\<close>

theorem getExtensions_sound:
  assumes "edge_connected p" and "e \<in> set (getExtensions p)"
  shows "edge_connected e \<and> size_poly e = size_poly p + 1 \<and>
    (\<exists>c. isAdjacent p c \<and> c \<notin> set (getCells p) \<and> e = addCell p c \<and>
       set (getCells e) =
         translate (Min (pt_x ` insert c (set (getCells p))))
                   (Min (pt_y ` insert c (set (getCells p)))) ` insert c (set (getCells p)))"
proof -
  from assms(2) obtain c where c: "isAdjacent p c" "c \<notin> set (getCells p)" and e: "e = addCell p c"
    by (auto simp: getExtensions_def set_find_candidates)
  have "edge_connected e"
    unfolding e using assms(1) c(1) by (rule edge_connected_addCell)
  moreover have "size_poly e = size_poly p + 1"
    unfolding e by (rule size_poly_addCell)
  moreover have "set (getCells e) =
         translate (Min (pt_x ` insert c (set (getCells p))))
                   (Min (pt_y ` insert c (set (getCells p)))) ` insert c (set (getCells p))"
    unfolding e by (rule set_getCells_addCell)
  ultimately show ?thesis using c e by blast
qed

lemma connected_single: "edge_connected (Poly [c])"
  by (simp add: edge_connected_def connected_cells_def)

theorem getExtensions_sound_witness:
  "edge_connected (Poly [Point 0 0]) \<and>
   Poly [Point 0 0, Point 1 0] \<in> set (getExtensions (Poly [Point 0 0])) \<and>
   edge_connected (Poly [Point 0 0, Point 1 0]) \<and>
   size_poly (Poly [Point 0 0, Point 1 0]) = size_poly (Poly [Point 0 0]) + 1"
proof -
  have c: "edge_connected (Poly [Point 0 0])"
    by (rule connected_single)
  have m: "Poly [Point 0 0, Point 1 0] \<in> set (getExtensions (Poly [Point 0 0]))"
    by code_simp
  show ?thesis
    using getExtensions_sound [OF c m] c m by simp
qed

text \<open>
  C6, as stated, makes the cell set of an extension the cell set of \<open>p\<close> plus one cell. The
  vertical domino is connected and normalized; its extension by the cell to the left of the
  origin is translated one step to the right and no longer holds the cell \<open>(0, 1)\<close> of the domino.
\<close>

theorem getExtensions_translates_parent:
  "edge_connected (Poly [Point 0 0, Point 0 1]) \<and>
   Polyomino [Point 0 0, Point 0 1] = Poly [Point 0 0, Point 0 1] \<and>
   Poly [Point 0 0, Point 1 0, Point 1 1] \<in> set (getExtensions (Poly [Point 0 0, Point 0 1])) \<and>
   \<not> set (getCells (Poly [Point 0 0, Point 0 1])) \<subseteq> set (getCells (Poly [Point 0 0, Point 1 0, Point 1 1]))"
proof -
  have "edge_connected (Poly [Point 0 0])"
    by (rule connected_single)
  moreover have "isAdjacent (Poly [Point 0 0]) (Point 0 1)"
    by code_simp
  ultimately have "edge_connected (addCell (Poly [Point 0 0]) (Point 0 1))"
    by (rule edge_connected_addCell)
  moreover have "addCell (Poly [Point 0 0]) (Point 0 1) = Poly [Point 0 0, Point 0 1]"
    by code_simp
  ultimately have "edge_connected (Poly [Point 0 0, Point 0 1])"
    by simp
  moreover have "Polyomino [Point 0 0, Point 0 1] = Poly [Point 0 0, Point 0 1]"
    by code_simp
  moreover have "Poly [Point 0 0, Point 1 0, Point 1 1] \<in> set (getExtensions (Poly [Point 0 0, Point 0 1]))"
    by code_simp
  moreover have "\<not> set (getCells (Poly [Point 0 0, Point 0 1])) \<subseteq> set (getCells (Poly [Point 0 0, Point 1 0, Point 1 1]))"
    by simp
  ultimately show ?thesis by blast
qed

section \<open>Growths and unique shapes per level\<close>

declare enumerate_loop.simps [simp del]

text \<open>
  Each extension increments the counter by one and adds at most one shape to the next set.
\<close>

lemma fold_grow_ext:
  "snd (fold (grow_ext ty) exts st) = snd st + length exts \<and>
   length (fst (fold (grow_ext ty) exts st)) \<le> length (fst st) + length exts"
proof (induction exts arbitrary: st)
  case Nil
  show ?case by simp
next
  case (Cons e exts)
  obtain n t where st: "st = (n, t)" by (cases st)
  have "length (set_insert (getCanonical ty e) n) \<le> Suc (length n)"
    by (rule length_set_insert)
  with Cons [of "grow_ext ty e st"] show ?case
    by (simp add: st grow_ext_def)
qed

lemma fold_grow_shape:
  "snd (fold (grow_shape ty) shapes st) = snd st + length (concat (map getExtensions shapes)) \<and>
   length (fst (fold (grow_shape ty) shapes st))
     \<le> length (fst st) + length (concat (map getExtensions shapes))"
proof (induction shapes arbitrary: st)
  case Nil
  show ?case by simp
next
  case (Cons s shapes)
  from Cons [of "grow_shape ty s st"] fold_grow_ext [of ty "getExtensions s" st]
  show ?case by (simp add: grow_shape_def)
qed

lemma snd_grow_level:
  "snd (grow_level ty shapes t) = t + length (concat (map getExtensions shapes))"
  using fold_grow_shape [of ty shapes "([], t)"] by (simp add: grow_level_def)

lemma length_grow_level:
  "length (fst (grow_level ty shapes t)) \<le> length (concat (map getExtensions shapes))"
  using fold_grow_shape [of ty shapes "([], t)"] by (simp add: grow_level_def)

text \<open>The next set stays increasing, so it holds no shape twice.\<close>

lemma sorted_grow_level: "sorted_wrt (<) (fst (grow_level ty shapes t))"
proof -
  have e: "sorted_wrt (<) (fst st) \<Longrightarrow> sorted_wrt (<) (fst (fold (grow_ext ty) exts st))" for exts st
    by (induction exts arbitrary: st) (auto simp: grow_ext_def sorted_set_insert split: prod.splits)
  have s: "sorted_wrt (<) (fst st) \<Longrightarrow> sorted_wrt (<) (fst (fold (grow_shape ty) shapes st))" for st
    by (induction shapes arbitrary: st) (auto simp: grow_shape_def e)
  show ?thesis
    by (simp add: grow_level_def s)
qed

lemma level_step_eq:
  "level_step ty sz st =
     ((fst st)[sz + 1 := fst (grow_level ty (fst st ! sz) (snd st))],
      snd (grow_level ty (fst st ! sz) (snd st)))"
  by (simp add: level_step_def case_prod_beta)

lemma fst_level_step:
  "fst (level_step ty sz st) = (fst st)[sz + 1 := fst (grow_level ty (fst st ! sz) (snd st))]"
  by (simp add: level_step_eq)

lemma snd_level_step:
  "snd (level_step ty sz st) = snd st + length (concat (map getExtensions (fst st ! sz)))"
  by (simp add: level_step_eq snd_grow_level)

text \<open>The result of \<^verbatim>\<open>enumerate\<close> is the last level.\<close>

lemma enumerate_shapes_levels: "enumerate_shapes ty N = levels ty N ! N"
  by (simp add: enumerate_shapes_def levels_def)

text \<open>
  The loop keeps the length of \<^verbatim>\<open>shapes_by_size\<close> and the entries up to its current size, and
  a run can be cut at any iteration.
\<close>

lemma enumerate_loop_done: "\<not> sz < N \<Longrightarrow> enumerate_loop ty N sz st = st"
  by (simp add: enumerate_loop.simps)

lemma enumerate_loop_step:
  "sz < N \<Longrightarrow> enumerate_loop ty N sz st = enumerate_loop ty N (sz + 1) (level_step ty sz st)"
  by (subst enumerate_loop.simps) simp

lemma length_enumerate_loop: "length (fst (enumerate_loop ty N sz st)) = length (fst st)"
  by (induction ty N sz st rule: enumerate_loop.induct)
     (subst enumerate_loop.simps, simp add: fst_level_step)

lemma nth_enumerate_loop: "i \<le> sz \<Longrightarrow> fst (enumerate_loop ty N sz st) ! i = fst st ! i"
  by (induction ty N sz st rule: enumerate_loop.induct)
     (subst enumerate_loop.simps, simp add: fst_level_step)

lemma enumerate_loop_split:
  "sz \<le> k \<Longrightarrow> k \<le> N \<Longrightarrow>
   enumerate_loop ty N sz st = enumerate_loop ty N k (enumerate_loop ty k sz st)"
proof (induction ty k sz st rule: enumerate_loop.induct)
  case (1 ty k sz st)
  show ?case
  proof (cases "sz < k")
    case True
    with 1 show ?thesis
      by (simp add: enumerate_loop_step)
  next
    case False
    with 1 show ?thesis
      by (simp add: enumerate_loop_done)
  qed
qed

lemma state_before_Suc:
  "1 \<le> k \<Longrightarrow> state_before ty N (k + 1) = level_step ty k (state_before ty N k)"
  unfolding state_before_def
  by (subst enumerate_loop_split [of 1 k "k + 1"])
     (simp_all add: enumerate_loop_step enumerate_loop_done)

lemma run_through_state_before:
  "1 \<le> k \<Longrightarrow> k \<le> N \<Longrightarrow>
   enumerate_loop ty N 1 (enumerate_init N) = enumerate_loop ty N k (state_before ty N k)"
  unfolding state_before_def by (rule enumerate_loop_split)

lemma levels_nth:
  assumes "1 \<le> k" and "k < N"
  shows "levels ty N ! k = fst (state_before ty N k) ! k"
    and "levels ty N ! (k + 1) =
           fst (grow_level ty (fst (state_before ty N k) ! k) (snd (state_before ty N k)))"
proof -
  have len: "length (fst (state_before ty N k)) = N + 1"
    by (simp add: state_before_def length_enumerate_loop enumerate_init_def)
  have "enumerate_loop ty N 1 (enumerate_init N) = enumerate_loop ty N k (state_before ty N k)"
    using assms by (intro run_through_state_before) simp_all
  also have "\<dots> = enumerate_loop ty N (k + 1) (level_step ty k (state_before ty N k))"
    using assms(2) by (rule enumerate_loop_step)
  finally have run:
    "levels ty N = fst (enumerate_loop ty N (k + 1) (level_step ty k (state_before ty N k)))"
    by (simp only: levels_def)
  show "levels ty N ! k = fst (state_before ty N k) ! k"
    by (simp add: run nth_enumerate_loop fst_level_step)
  show "levels ty N ! (k + 1) =
           fst (grow_level ty (fst (state_before ty N k) ! k) (snd (state_before ty N k)))"
    using assms len by (simp add: run nth_enumerate_loop fst_level_step)
qed

text \<open>
  C9. In a run for \<open>N\<close> and for every level \<open>k\<close> from 1 to \<open>N - 1\<close>, the growths generated
  from the shapes of level \<open>k\<close> are at least as many as the shapes of level \<open>k + 1\<close>; they are
  the extensions of the shapes of level \<open>k\<close>, counted with repetition.
\<close>

theorem growths_bound_unique_shapes:
  assumes "1 \<le> k" and "k < N"
  shows "length (levels ty N ! (k + 1)) \<le> growths_at ty N k \<and>
         growths_at ty N k = length (concat (map getExtensions (levels ty N ! k)))"
proof -
  have g: "growths_at ty N k = length (concat (map getExtensions (levels ty N ! k)))"
    using assms state_before_Suc [of k ty N]
    by (simp add: growths_at_def snd_level_step levels_nth(1))
  have "length (levels ty N ! (k + 1)) \<le> length (concat (map getExtensions (levels ty N ! k)))"
    unfolding levels_nth [OF assms] by (rule length_grow_level)
  with g show ?thesis by simp
qed

theorem growths_bound_unique_shapes_witness:
  "length (levels ''fixed'' 5 ! 4) = 7 \<and> growths_at ''fixed'' 5 3 = 15 \<and>
   length (concat (map getExtensions (levels ''fixed'' 5 ! 3))) = 15"
proof -
  have "length (levels ''fixed'' 5 ! 4) = 7" and "growths_at ''fixed'' 5 3 = 15"
    by code_simp+
  then show ?thesis
    using growths_bound_unique_shapes [of 3 5 "''fixed''"] by simp
qed

end
